theory Spec2Isabelle
  imports Complex_Main "HOL-Library.Multiset" "HOL-Library.Char_ord"
begin

section \<open>The persistence store (database.ts)\<close>

text \<open>
  A \<^verbatim>\<open>Todo\<close> is the object type of database.ts. The fields \<^verbatim>\<open>id\<close> and \<^verbatim>\<open>done\<close> are
  written \<open>todo_id\<close> and \<open>todo_done\<close>. Numbers are integers (exact below \<open>2^53\<close>);
  a string is a list of code units.

  The file \<^verbatim>\<open>todos.json\<close> holds one array of todos. \<^verbatim>\<open>getTodos\<close> parses it afresh on every
  call and \<^verbatim>\<open>_saveTodos\<close> overwrites it, so the store's state is the list in the file and
  every operation maps the old file contents to its return value and the new contents.
  The methods of the class \<^verbatim>\<open>Database\<close> carry the prefix \<open>db_\<close>.
\<close>

record todo =
  todo_id :: int
  title :: string
  timestamp :: string
  todo_done :: bool

type_synonym database = "todo list"

text \<open>
  \<^verbatim>\<open>todos.find(p)\<close> yields a reference to the first element satisfying \<open>p\<close>; assigning to a
  field of that reference changes the element inside the array (\<open>update_first\<close>), and
  \<^verbatim>\<open>todos.splice(todos.indexOf(todo), 1)\<close> removes that very element (\<open>remove_first\<close>).
\<close>

fun update_first :: "('a \<Rightarrow> bool) \<Rightarrow> ('a \<Rightarrow> 'a) \<Rightarrow> 'a list \<Rightarrow> 'a list" where
  "update_first p f [] = []"
| "update_first p f (x # xs) = (if p x then f x # xs else x # update_first p f xs)"

fun remove_first :: "('a \<Rightarrow> bool) \<Rightarrow> 'a list \<Rightarrow> 'a list" where
  "remove_first p [] = []"
| "remove_first p (x # xs) = (if p x then xs else x # remove_first p xs)"

definition db_getTodos :: "database \<Rightarrow> todo list" where
  "db_getTodos file = file"

text \<open>\<open>now\<close> is the value of \<^verbatim>\<open>new Date().toISOString()\<close> at the call.\<close>

definition db_addTodo :: "string \<Rightarrow> string \<Rightarrow> database \<Rightarrow> database" where
  "db_addTodo now text file =
     (let todos = db_getTodos file
      in todos @ [\<lparr>todo_id = int (length todos) + 1, title = text,
                    timestamp = now, todo_done = False\<rparr>])"

definition db_toggleTodoDone :: "int \<Rightarrow> database \<Rightarrow> bool \<times> database" where
  "db_toggleTodoDone i file =
     (let todos = db_getTodos file
      in case find (\<lambda>t. todo_id t = i) todos of
           None \<Rightarrow> (False, file)
         | Some t \<Rightarrow>
             (\<not> todo_done t,
              update_first (\<lambda>t. todo_id t = i) (\<lambda>t. t\<lparr>todo_done := \<not> todo_done t\<rparr>) todos))"

definition db_deleteTodo :: "int \<Rightarrow> database \<Rightarrow> bool \<times> database" where
  "db_deleteTodo i file =
     (let todos = db_getTodos file
      in case find (\<lambda>t. todo_id t = i) todos of
           None \<Rightarrow> (False, file)
         | Some t \<Rightarrow> (True, remove_first (\<lambda>t. todo_id t = i) todos))"

definition db_editTodo :: "int \<Rightarrow> string \<Rightarrow> database \<Rightarrow> bool \<times> database" where
  "db_editTodo i text file =
     (let todos = db_getTodos file
      in case find (\<lambda>t. todo_id t = i) todos of
           None \<Rightarrow> (False, file)
         | Some t \<Rightarrow> (True, update_first (\<lambda>t. todo_id t = i) (\<lambda>t. t\<lparr>title := text\<rparr>) todos))"

text \<open>The store's operations as commands, and a run of them from given file contents.\<close>

datatype store_op =
    Add string string
  | Toggle int
  | Edit int string
  | Delete int

fun apply_store_op :: "store_op \<Rightarrow> database \<Rightarrow> database" where
  "apply_store_op (Add now text) file = db_addTodo now text file"
| "apply_store_op (Toggle i) file = snd (db_toggleTodoDone i file)"
| "apply_store_op (Edit i text) file = snd (db_editTodo i text file)"
| "apply_store_op (Delete i) file = snd (db_deleteTodo i file)"

fun run_store_ops :: "store_op list \<Rightarrow> database \<Rightarrow> database" where
  "run_store_ops [] file = file"
| "run_store_ops (c # cs) file = run_store_ops cs (apply_store_op c file)"

section \<open>Strings and the runtime's library functions\<close>

text \<open>
  A \<open>char\<close> stands for one code unit below 256. The functions of this section model the
  runtime's library on such strings: \<^verbatim>\<open>String.prototype.trim\<close>, \<^verbatim>\<open>split\<close> with a one-character
  separator, \<^verbatim>\<open>localeCompare\<close>, \<^verbatim>\<open>Array.prototype.slice\<close> and \<^verbatim>\<open>sort\<close>, and the part of
  \<^verbatim>\<open>RegExp\<close> that the controller uses.
\<close>

definition backslash :: char where
  "backslash = CHR 0x5C"

text \<open>White space and line terminators: what \<^verbatim>\<open>trim\<close> strips and \<^verbatim>\<open>\s\<close> matches.\<close>

definition isWhiteSpace :: "char \<Rightarrow> bool" where
  "isWhiteSpace c =
     (c \<in> set [CHR 0x09, CHR 0x0A, CHR 0x0B, CHR 0x0C, CHR 0x0D, CHR 0x20, CHR 0xA0])"

definition trim :: "string \<Rightarrow> string" where
  "trim s = rev (dropWhile isWhiteSpace (rev (dropWhile isWhiteSpace s)))"

text \<open>\<^verbatim>\<open>s.split(sep)\<close> for a separator of one character: never an empty array.\<close>

fun split :: "char \<Rightarrow> string \<Rightarrow> string list" where
  "split sep [] = [[]]"
| "split sep (c # cs) =
     (if c = sep then [] # split sep cs
      else (case split sep cs of
              [] \<Rightarrow> [[c]]
            | w # ws \<Rightarrow> (c # w) # ws))"

text \<open>
  Case folding of a regular expression with the flag \<^verbatim>\<open>i\<close> (and no flag \<^verbatim>\<open>u\<close>): a code unit
  is compared through its upper-case form. Below 256 the lower-case letters are \<open>a\<close>-\<open>z\<close>
  and \<open>0xE0\<close>-\<open>0xFE\<close> without \<open>0xF7\<close>; their upper-case forms lie 32 below (bit 5 cleared).
\<close>

definition isLower :: "char \<Rightarrow> bool" where
  "isLower c =
     (let n = (of_char c :: nat)
      in (97 \<le> n \<and> n \<le> 122) \<or> (224 \<le> n \<and> n \<le> 254 \<and> n \<noteq> 247))"

fun canonicalize :: "char \<Rightarrow> char" where
  "canonicalize (Char b0 b1 b2 b3 b4 b5 b6 b7) =
     (if isLower (Char b0 b1 b2 b3 b4 b5 b6 b7) then Char b0 b1 b2 b3 b4 False b6 b7
      else Char b0 b1 b2 b3 b4 b5 b6 b7)"

text \<open>
  The patterns the controller compiles are sequences of plain characters and of
  backslash-escaped characters. \<open>parsePattern\<close> reads such a pattern into the string it
  matches literally: an escaped character that is no letter, digit or underscore stands
  for itself, and so does an unescaped character that is no syntax character. Any other
  pattern is outside the fragment (\<open>None\<close>).
\<close>

definition isSyntaxChar :: "char \<Rightarrow> bool" where
  "isSyntaxChar c =
     (c \<in> set [CHR ''^'', CHR ''$'', backslash, CHR ''.'', CHR ''*'', CHR ''+'', CHR ''?'',
                CHR ''('', CHR '')'', CHR ''['', CHR '']'', CHR ''{'', CHR ''}'', CHR ''|''])"

definition isWordChar :: "char \<Rightarrow> bool" where
  "isWordChar c =
     (let n = (of_char c :: nat)
      in (48 \<le> n \<and> n \<le> 57) \<or> (65 \<le> n \<and> n \<le> 90) \<or> (97 \<le> n \<and> n \<le> 122) \<or> n = 95)"

fun parsePattern :: "string \<Rightarrow> string option" where
  "parsePattern [] = Some []"
| "parsePattern (c # cs) =
     (if c = backslash then
        (case cs of
           [] \<Rightarrow> None
         | d # ds \<Rightarrow> if isWordChar d then None else map_option ((#) d) (parsePattern ds))
      else if isSyntaxChar c then None
      else map_option ((#) c) (parsePattern cs))"

fun matchesAt :: "string \<Rightarrow> string \<Rightarrow> bool" where
  "matchesAt [] s = True"
| "matchesAt (c # cs) [] = False"
| "matchesAt (c # cs) (d # ds) = (canonicalize c = canonicalize d \<and> matchesAt cs ds)"

fun searchFrom :: "string \<Rightarrow> string \<Rightarrow> bool" where
  "searchFrom lit [] = matchesAt lit []"
| "searchFrom lit (d # ds) = (matchesAt lit (d # ds) \<or> searchFrom lit ds)"

text \<open>
  \<^verbatim>\<open>new RegExp(pattern, "gi").test(s)\<close> on a fresh expression (\<^verbatim>\<open>lastIndex\<close> is 0): is there a
  position of \<open>s\<close> where the pattern matches, letter case ignored.
\<close>

definition RegExp_test_gi :: "string \<Rightarrow> string \<Rightarrow> bool" where
  "RegExp_test_gi pattern s =
     (case parsePattern pattern of
        None \<Rightarrow> False
      | Some lit \<Rightarrow> searchFrom lit s)"

text \<open>
  Modelled from the spec: \<^verbatim>\<open>a.localeCompare(b)\<close>, whose collation belongs to the runtime and
  is not part of the sources. The specification describes it, on the timestamps, as the
  lexicographic order of the strings, and that order on code units is what is modelled
  here. Two timestamps that \<^verbatim>\<open>toISOString\<close> produced have their digits at the same positions,
  so they first differ in a digit and compare the same way under any collation. On titles
  a collation may order differently; no statement below depends on the order by title.
\<close>

fun localeCompare :: "string \<Rightarrow> string \<Rightarrow> int" where
  "localeCompare [] [] = 0"
| "localeCompare [] (d # ds) = - 1"
| "localeCompare (c # cs) [] = 1"
| "localeCompare (c # cs) (d # ds) =
     (if (of_char c :: nat) < of_char d then - 1
      else if (of_char d :: nat) < of_char c then 1
      else localeCompare cs ds)"

text \<open>
  \<^verbatim>\<open>xs.sort(cmp)\<close> (here \<open>sort_js\<close>) is a stable sort: for a comparator that is a total preorder its result is
  the one the insertion sort below computes, where an element goes in front of the first
  element it does not exceed.
\<close>

fun insertBy :: "('a \<Rightarrow> 'a \<Rightarrow> int) \<Rightarrow> 'a \<Rightarrow> 'a list \<Rightarrow> 'a list" where
  "insertBy cmp x [] = [x]"
| "insertBy cmp x (y # ys) = (if cmp x y \<le> 0 then x # y # ys else y # insertBy cmp x ys)"

definition sort_js :: "('a \<Rightarrow> 'a \<Rightarrow> int) \<Rightarrow> 'a list \<Rightarrow> 'a list" where
  "sort_js cmp xs = foldr (insertBy cmp) xs []"

text \<open>
  \<^verbatim>\<open>xs.slice(start, end)\<close>: a negative bound counts from the end, and both bounds are clamped
  to the array.
\<close>

definition slice :: "'a list \<Rightarrow> int \<Rightarrow> int \<Rightarrow> 'a list" where
  "slice xs start end =
     (let len = int (length xs);
          k = (if start < 0 then max (len + start) 0 else min start len);
          final = (if end < 0 then max (len + end) 0 else min end len)
      in take (nat (final - k)) (drop (nat k) xs))"

section \<open>The view state and the query engine (controller.ts)\<close>

datatype sortKey = Status | Title | Timestamp

datatype sortOrder = Asc | Desc

record controller =
  page :: int
  pageSize :: int
  search :: string
  order :: sortOrder
  sortBy :: sortKey
  hideCompleted :: bool
  selectedTodoId :: "int option"

text \<open>The property initialisers of the class.\<close>

definition newController :: controller where
  "newController =
     \<lparr>page = 1, pageSize = 10, search = [], order = Asc, sortBy = Timestamp,
      hideCompleted = False, selectedTodoId = None\<rparr>"

definition escapeRegex :: "string \<Rightarrow> string" where
  "escapeRegex text =
     concat (map (\<lambda>c. if c \<in> set [CHR ''-'', CHR ''['', CHR '']'', CHR ''{'', CHR ''}'', CHR ''('',
                                   CHR '')'', CHR ''*'', CHR ''+'', CHR ''?'', CHR ''.'', CHR '','',
                                   backslash, CHR ''^'', CHR ''$'', CHR ''|'', CHR ''#'']
                          \<or> isWhiteSpace c
                       then [backslash, c] else [c]) text)"

text \<open>The comparator of the sort when \<^verbatim>\<open>_sortBy\<close> is \<^verbatim>\<open>"status"\<close>.\<close>

definition compareStatus :: "todo \<Rightarrow> todo \<Rightarrow> int" where
  "compareStatus a b =
     (if todo_done a = todo_done b then localeCompare (timestamp a) (timestamp b)
      else if todo_done a then 1 else - 1)"

definition getFilteredTodos :: "database \<Rightarrow> controller \<Rightarrow> todo list" where
  "getFilteredTodos file c =
     (let todos = db_getTodos file;
          todos = (if hideCompleted c then filter (\<lambda>t. \<not> todo_done t) todos else todos);
          todos =
            (if search c \<noteq> [] then
               (let searchTerms = split (CHR '' '') (search c)
                in filter (\<lambda>t. list_all (\<lambda>term. RegExp_test_gi (escapeRegex (trim term)) (title t))
                                  searchTerms) todos)
             else todos);
          todos =
            (if sortBy c \<noteq> Timestamp then
               sort_js (\<lambda>a b. if sortBy c = Status then compareStatus a b
                           else localeCompare (title a) (title b)) todos
             else todos);
          todos = (if order c = Desc then rev todos else todos)
      in todos)"

definition getVisibleTodos :: "database \<Rightarrow> controller \<Rightarrow> todo list" where
  "getVisibleTodos file c =
     (let todos = getFilteredTodos file c
      in slice todos ((page c - 1) * pageSize c) (page c * pageSize c))"

text \<open>
  \<^verbatim>\<open>!this._selectedTodoId\<close> holds for \<^verbatim>\<open>null\<close> and for the number 0.
\<close>

definition isSet :: "int option \<Rightarrow> bool" where
  "isSet sel = (case sel of None \<Rightarrow> False | Some i \<Rightarrow> i \<noteq> 0)"

definition getSelectedTodo :: "database \<Rightarrow> controller \<Rightarrow> todo option" where
  "getSelectedTodo file c =
     (if \<not> isSet (selectedTodoId c) then None
      else (let todos = getVisibleTodos file c
            in find (\<lambda>t. Some (todo_id t) = selectedTodoId c) todos))"

text \<open>
  \<^verbatim>\<open>Math.ceil(n / pageSize)\<close> for a length \<open>n\<close> and a page size of at least 1, which
  \<^verbatim>\<open>changePageSize\<close> maintains.
\<close>

definition getMaxPage :: "database \<Rightarrow> controller \<Rightarrow> int" where
  "getMaxPage file c = - ((- int (length (getFilteredTodos file c))) div pageSize c)"

section \<open>The query engine on arrays in memory\<close>

text \<open>
  \<^verbatim>\<open>sort\<close> and \<^verbatim>\<open>reverse\<close> change an array in place, and \<^verbatim>\<open>filter\<close> and \<^verbatim>\<open>slice\<close> build a
  new one. To see what the derivation touches, this section runs it on an explicit memory:
  \<open>disk\<close> is the file, \<open>self\<close> the controller's fields, and \<open>heap\<close> the arrays allocated so
  far, a reference being an index into it. Every method takes the memory and returns a
  reference with the memory it leaves behind.
\<close>

record memory =
  disk :: database
  self :: controller
  heap :: "todo list list"

text \<open>\<^verbatim>\<open>JSON.parse(readFileSync(...))\<close> builds a new array from the file.\<close>

definition mem_getTodos :: "memory \<Rightarrow> nat \<times> memory" where
  "mem_getTodos m = (length (heap m), m\<lparr>heap := heap m @ [disk m]\<rparr>)"

definition mem_filter :: "(todo \<Rightarrow> bool) \<Rightarrow> nat \<Rightarrow> memory \<Rightarrow> nat \<times> memory" where
  "mem_filter p r m = (length (heap m), m\<lparr>heap := heap m @ [filter p (heap m ! r)]\<rparr>)"

definition mem_sort :: "(todo \<Rightarrow> todo \<Rightarrow> int) \<Rightarrow> nat \<Rightarrow> memory \<Rightarrow> nat \<times> memory" where
  "mem_sort cmp r m = (r, m\<lparr>heap := (heap m)[r := sort_js cmp (heap m ! r)]\<rparr>)"

definition mem_reverse :: "nat \<Rightarrow> memory \<Rightarrow> nat \<times> memory" where
  "mem_reverse r m = (r, m\<lparr>heap := (heap m)[r := rev (heap m ! r)]\<rparr>)"

definition mem_slice :: "nat \<Rightarrow> int \<Rightarrow> int \<Rightarrow> memory \<Rightarrow> nat \<times> memory" where
  "mem_slice r start end m =
     (length (heap m), m\<lparr>heap := heap m @ [slice (heap m ! r) start end]\<rparr>)"

definition mem_getFilteredTodos :: "memory \<Rightarrow> nat \<times> memory" where
  "mem_getFilteredTodos m0 =
     (let (todos, m) = mem_getTodos m0;
          (todos, m) =
            (if hideCompleted (self m) then mem_filter (\<lambda>t. \<not> todo_done t) todos m
             else (todos, m));
          (todos, m) =
            (if search (self m) \<noteq> [] then
               (let searchTerms = split (CHR '' '') (search (self m))
                in mem_filter
                     (\<lambda>t. list_all (\<lambda>term. RegExp_test_gi (escapeRegex (trim term)) (title t))
                             searchTerms) todos m)
             else (todos, m));
          (todos, m) =
            (if sortBy (self m) \<noteq> Timestamp then
               mem_sort (\<lambda>a b. if sortBy (self m) = Status then compareStatus a b
                               else localeCompare (title a) (title b)) todos m
             else (todos, m));
          (todos, m) = (if order (self m) = Desc then mem_reverse todos m else (todos, m))
      in (todos, m))"

definition mem_getVisibleTodos :: "memory \<Rightarrow> nat \<times> memory" where
  "mem_getVisibleTodos m0 =
     (let (todos, m) = mem_getFilteredTodos m0
      in mem_slice todos ((page (self m) - 1) * pageSize (self m))
           (page (self m) * pageSize (self m)) m)"

text \<open>
  \<open>derived m0 r m xs\<close>: the memory \<open>m\<close> comes from \<open>m0\<close> with the same file and controller
  fields and with every array of \<open>m0\<close> as it was, and \<open>r\<close> refers to an array allocated
  since, whose contents are \<open>xs\<close>.
\<close>

definition derived :: "memory \<Rightarrow> nat \<Rightarrow> memory \<Rightarrow> todo list \<Rightarrow> bool" where
  "derived m0 r m xs =
     (disk m = disk m0 \<and> self m = self m0 \<and> length (heap m0) \<le> r \<and> r < length (heap m)
      \<and> take (length (heap m0)) (heap m) = heap m0 \<and> heap m ! r = xs)"

section \<open>The terminal (terminal.ts)\<close>

text \<open>
  What the program writes, without colours and blank lines: one constructor for each text
  of the controller, for a prompt, and for the two renderings (\<^verbatim>\<open>listTodos\<close> with the page,
  the maximum page, the visible todos and the filtered count; \<^verbatim>\<open>listActions\<close> with the keys
  it offers).
\<close>

datatype message =
    Prompt
  | EntradaInvalida
  | AcaoInvalida
  | Echo string
  | BemVindo
  | AteLogo
  | Listing int int "todo list" nat
  | Actions "char list"
  | BuscaLimpa
  | OcultandoCompletos
  | MostrandoCompletos
  | OrdenacaoLimpa
  | PaginaAlterada int
  | NumeroInvalido
  | PorPaginaAlterado int
  | TodoAdicionado
  | TodoNaoEncontrado
  | TodoSelecionado todo
  | TodoDesselecionado
  | NenhumTodoSelecionado
  | TodoMarcado bool
  | TodoEditado
  | TodoDeletado

text \<open>
  The state of a session: the file \<^verbatim>\<open>todos.json\<close>, the controller's fields, the data events
  that standard input will still deliver, and what has been written. A method that reads
  input ends with \<open>InputEnded\<close> when no event is left, which stands for a read that blocks
  for ever.
\<close>

record world =
  store :: database
  view :: controller
  stdin :: "string list"
  stdout :: "message list"

datatype stop = InputEnded | Exited | NoSuchKey

definition console_log :: "message \<Rightarrow> world \<Rightarrow> world" where
  "console_log msg w = w\<lparr>stdout := stdout w @ [msg]\<rparr>"

definition readLine :: "string \<Rightarrow> string" where
  "readLine d = trim d"

definition readKey :: "string \<Rightarrow> string" where
  "readKey d = d"

function requestInput_loop ::
  "(string \<Rightarrow> string) \<Rightarrow> (string \<Rightarrow> bool) \<Rightarrow> bool \<Rightarrow> world \<Rightarrow> stop + string \<times> world" where
  "requestInput_loop readFunc acceptedInput feedback w =
     (case stdin w of
        [] \<Rightarrow> Inl InputEnded
      | d # ds \<Rightarrow>
          (let input = readFunc d;
               w1 = w\<lparr>stdin := ds\<rparr>;
               w2 = (if feedback \<and> \<not> acceptedInput input
                     then console_log Prompt (console_log EntradaInvalida w1) else w1)
           in if \<not> acceptedInput input
              then requestInput_loop readFunc acceptedInput feedback w2
              else Inr (input, w2)))"
  by pat_completeness auto
termination
  by (relation "measure (\<lambda>(readFunc, acceptedInput, feedback, w). length (stdin w))")
    (auto simp: console_log_def)

definition requestInput ::
  "(string \<Rightarrow> string) \<Rightarrow> (string \<Rightarrow> bool) \<Rightarrow> bool \<Rightarrow> world \<Rightarrow> stop + string \<times> world" where
  "requestInput readFunc acceptedInput feedback w =
     requestInput_loop readFunc acceptedInput feedback (console_log Prompt w)"

definition requestInputLine :: "(string \<Rightarrow> bool) \<Rightarrow> world \<Rightarrow> stop + string \<times> world" where
  "requestInputLine acceptedLine w = requestInput readLine acceptedLine True w"

definition requestInputKey :: "(string \<Rightarrow> bool) \<Rightarrow> world \<Rightarrow> stop + string \<times> world" where
  "requestInputKey acceptedKeys w = requestInput readKey acceptedKeys True w"

text \<open>
  The patterns of the controller's prompts: \<^verbatim>\<open>/^[0-9]+$/\<close>, \<^verbatim>\<open>/.*/\<close>, \<^verbatim>\<open>/.+/\<close> (some character
  that is no line terminator), and the pattern that \<^verbatim>\<open>_buildActionsRegex\<close> builds from the
  offered keys: the keys joined by \<^verbatim>\<open>|\<close> with the flag \<^verbatim>\<open>i\<close>, which an input matches when one
  of its characters is one of the keys, letter case ignored. An entry \<^verbatim>\<open>K - label\<close> of the
  offered actions is represented by its key \<open>K\<close>.
\<close>

definition isDigit :: "char \<Rightarrow> bool" where
  "isDigit c = (let n = (of_char c :: nat) in 48 \<le> n \<and> n \<le> 57)"

definition numberLine :: "string \<Rightarrow> bool" where
  "numberLine s = (s \<noteq> [] \<and> list_all isDigit s)"

definition anyLine :: "string \<Rightarrow> bool" where
  "anyLine s = True"

definition nonEmptyLine :: "string \<Rightarrow> bool" where
  "nonEmptyLine s = list_ex (\<lambda>c. c \<noteq> CHR 0x0A \<and> c \<noteq> CHR 0x0D) s"

definition buildActionsRegex :: "char list \<Rightarrow> string \<Rightarrow> bool" where
  "buildActionsRegex availableActions input =
     list_ex (\<lambda>c. list_ex (\<lambda>k. canonicalize c = canonicalize k) availableActions) input"

text \<open>\<^verbatim>\<open>Number(index)\<close> for a string of digits.\<close>

definition Number :: "string \<Rightarrow> int" where
  "Number s = int (foldl (\<lambda>n c. 10 * n + (of_char c - 48)) 0 s)"

text \<open>
  \<^verbatim>\<open>toUpperCase\<close>, used only to look an input up among one-letter keys.
\<close>

definition toUpperCase :: "string \<Rightarrow> string" where
  "toUpperCase s = map canonicalize s"

text \<open>\<^verbatim>\<open>xs[i]\<close> for a number \<open>i\<close>: \<^verbatim>\<open>undefined\<close> outside the array.\<close>

definition item :: "'a list \<Rightarrow> int \<Rightarrow> 'a option" where
  "item xs i = (if 0 \<le> i \<and> i < int (length xs) then Some (xs ! nat i) else None)"

section \<open>The controller's commands (controller.ts)\<close>

text \<open>The id in \<^verbatim>\<open>_selectedTodoId\<close> when the field is truthy.\<close>

definition truthy :: "int option \<Rightarrow> int option" where
  "truthy sel = (case sel of None \<Rightarrow> None | Some i \<Rightarrow> if i = 0 then None else Some i)"

definition greet :: "world \<Rightarrow> world" where
  "greet w = console_log BemVindo w"

definition listActions :: "world \<Rightarrow> char list \<times> world" where
  "listActions w =
     (case getSelectedTodo (store w) (view w) of
        Some todo \<Rightarrow>
          (let availableActions = ''SXDE''
           in (availableActions, console_log (Actions availableActions) w))
      | None \<Rightarrow>
          (let availableActions = ''QLARZW'';
               availableActions =
                 (if page (view w) > 1 then availableActions @ ''C'' else availableActions);
               availableActions =
                 (if page (view w) < getMaxPage (store w) (view w)
                  then availableActions @ ''V'' else availableActions);
               availableActions =
                 (if length (db_getTodos (store w)) > 0
                  then availableActions @ ''B'' else availableActions);
               availableActions =
                 (if length (getVisibleTodos (store w) (view w)) > 0
                  then availableActions @ ''S'' else availableActions)
           in (availableActions, console_log (Actions availableActions) w)))"

definition listTodos :: "world \<Rightarrow> world" where
  "listTodos w =
     console_log
       (Listing (page (view w)) (getMaxPage (store w) (view w))
          (getVisibleTodos (store w) (view w))
          (length (getFilteredTodos (store w) (view w)))) w"

definition searchTodo :: "world \<Rightarrow> stop + world" where
  "searchTodo w =
     (if search (view w) \<noteq> [] then
        Inr (console_log BuscaLimpa (w\<lparr>view := (view w)\<lparr>search := []\<rparr>\<rparr>))
      else
        (case requestInputLine anyLine w of
           Inl e \<Rightarrow> Inl e
         | Inr (line, w) \<Rightarrow> Inr (w\<lparr>view := (view w)\<lparr>search := line\<rparr>\<rparr>)))"

definition toggleHideCompleted :: "world \<Rightarrow> world" where
  "toggleHideCompleted w =
     (let w = w\<lparr>view := (view w)\<lparr>hideCompleted := \<not> hideCompleted (view w)\<rparr>\<rparr>
      in console_log (if hideCompleted (view w) then OcultandoCompletos
                      else MostrandoCompletos) w)"

definition sortByShortcuts :: "string \<Rightarrow> sortKey option" where
  "sortByShortcuts k =
     (if k = ''T'' then Some Title else if k = ''S'' then Some Status
      else if k = ''C'' then Some Timestamp else None)"

definition orderShortcuts :: "string \<Rightarrow> sortOrder option" where
  "orderShortcuts k = (if k = ''C'' then Some Asc else if k = ''D'' then Some Desc else None)"

text \<open>
  The two tables are indexed with an input that the pattern has accepted. An accepted
  input of more than one character is no key of the table; the field would then hold
  \<^verbatim>\<open>undefined\<close>, outside its declared type, and the model stops with \<open>NoSuchKey\<close>.
\<close>

definition sortTodos :: "world \<Rightarrow> stop + world" where
  "sortTodos w =
     (if sortBy (view w) \<noteq> Timestamp \<or> order (view w) \<noteq> Asc then
        Inr (console_log OrdenacaoLimpa (w\<lparr>view := (view w)\<lparr>sortBy := Timestamp, order := Asc\<rparr>\<rparr>))
      else
        (case requestInputKey (buildActionsRegex ''TSC'') w of
           Inl e \<Rightarrow> Inl e
         | Inr (actionInput, w) \<Rightarrow>
             (case sortByShortcuts (toUpperCase actionInput) of
                None \<Rightarrow> Inl NoSuchKey
              | Some k \<Rightarrow>
                  (let w = console_log (Echo actionInput) (w\<lparr>view := (view w)\<lparr>sortBy := k\<rparr>\<rparr>)
                   in case requestInputKey (buildActionsRegex ''CD'') w of
                        Inl e \<Rightarrow> Inl e
                      | Inr (actionInput, w) \<Rightarrow>
                          (case orderShortcuts (toUpperCase actionInput) of
                             None \<Rightarrow> Inl NoSuchKey
                           | Some dir \<Rightarrow>
                               Inr (console_log (Echo actionInput)
                                      (w\<lparr>view := (view w)\<lparr>order := dir\<rparr>\<rparr>)))))))"

definition nextPage :: "world \<Rightarrow> world" where
  "nextPage w =
     (let w = w\<lparr>view := (view w)\<lparr>page := page (view w) + 1\<rparr>\<rparr>
      in console_log (PaginaAlterada (page (view w))) w)"

definition previousPage :: "world \<Rightarrow> world" where
  "previousPage w =
     (let w = w\<lparr>view := (view w)\<lparr>page := page (view w) - 1\<rparr>\<rparr>
      in console_log (PaginaAlterada (page (view w))) w)"

text \<open>An accepted input has used up at least one event: the prompt loops end.\<close>

declare requestInput_loop.simps [simp del]

lemma requestInput_loop_Nil:
  "stdin w = [] \<Longrightarrow> requestInput_loop readFunc acceptedInput feedback w = Inl InputEnded"
  by (subst requestInput_loop.simps) simp

lemma requestInput_loop_Cons:
  "stdin w = d # ds \<Longrightarrow>
     requestInput_loop readFunc acceptedInput feedback w =
       (if acceptedInput (readFunc d) then Inr (readFunc d, w\<lparr>stdin := ds\<rparr>)
        else requestInput_loop readFunc acceptedInput feedback
               (if feedback then console_log Prompt (console_log EntradaInvalida (w\<lparr>stdin := ds\<rparr>))
                else w\<lparr>stdin := ds\<rparr>))"
  by (subst requestInput_loop.simps) (simp add: Let_def)

lemma requestInput_loop_consumes:
  "requestInput_loop readFunc acceptedInput feedback w = Inr (input, w') \<Longrightarrow>
     length (stdin w') < length (stdin w)"
proof (induction "length (stdin w)" arbitrary: w)
  case 0
  then show ?case by (simp add: requestInput_loop_Nil)
next
  case (Suc n)
  then obtain d ds where ds: "stdin w = d # ds" "length ds = n"
    by (cases "stdin w") auto
  define w2 where "w2 = (if feedback
      then console_log Prompt (console_log EntradaInvalida (w\<lparr>stdin := ds\<rparr>))
      else w\<lparr>stdin := ds\<rparr>)"
  have len: "length (stdin w2) = n"
    by (simp add: w2_def console_log_def ds)
  show ?case
  proof (cases "acceptedInput (readFunc d)")
    case True
    with Suc.prems ds show ?thesis
      by (auto simp: requestInput_loop_Cons)
  next
    case False
    with Suc.prems ds
    have "requestInput_loop readFunc acceptedInput feedback w2 = Inr (input, w')"
      by (simp add: requestInput_loop_Cons w2_def)
    with Suc.hyps(1) [of w2] len have "length (stdin w') < n" by simp
    with ds show ?thesis by simp
  qed
qed

lemma requestInputLine_consumes:
  "requestInputLine acceptedLine w = Inr (input, w') \<Longrightarrow> length (stdin w') < length (stdin w)"
  unfolding requestInputLine_def requestInput_def
  by (drule requestInput_loop_consumes) (simp add: console_log_def)

function changePageSize :: "world \<Rightarrow> stop + world" where
  "changePageSize w =
     (case requestInputLine numberLine w of
        Inl e \<Rightarrow> Inl e
      | Inr (index, w) \<Rightarrow>
          (let pageSize' = Number index
           in if pageSize' < 1 then changePageSize (console_log NumeroInvalido w)
              else (let w = w\<lparr>view := (view w)\<lparr>pageSize := pageSize'\<rparr>\<rparr>
                    in Inr (console_log (PorPaginaAlterado (pageSize (view w))) w))))"
  by pat_completeness auto
termination
  by (relation "measure (\<lambda>w. length (stdin w))")
    (auto simp: console_log_def dest: requestInputLine_consumes)

declare changePageSize.simps [simp del]

definition addTodo :: "string \<Rightarrow> world \<Rightarrow> stop + world" where
  "addTodo now w =
     (case requestInputLine nonEmptyLine w of
        Inl e \<Rightarrow> Inl e
      | Inr (todo, w) \<Rightarrow>
          Inr (console_log TodoAdicionado (w\<lparr>store := db_addTodo now todo (store w)\<rparr>)))"

function selectTodo_loop :: "world \<Rightarrow> stop + world" where
  "selectTodo_loop w =
     (case requestInputLine numberLine w of
        Inl e \<Rightarrow> Inl e
      | Inr (index, w) \<Rightarrow>
          (let todos = getVisibleTodos (store w) (view w)
           in case item todos (Number index - 1) of
                None \<Rightarrow> selectTodo_loop (console_log TodoNaoEncontrado w)
              | Some todo \<Rightarrow>
                  Inr (console_log (TodoSelecionado todo)
                         (w\<lparr>view := (view w)\<lparr>selectedTodoId := Some (todo_id todo)\<rparr>\<rparr>))))"
  by pat_completeness auto
termination
  by (relation "measure (\<lambda>w. length (stdin w))")
    (auto simp: console_log_def dest: requestInputLine_consumes)

declare selectTodo_loop.simps [simp del]

definition selectTodo :: "world \<Rightarrow> stop + world" where
  "selectTodo w =
     (case truthy (selectedTodoId (view w)) of
        Some i \<Rightarrow>
          Inr (console_log TodoDesselecionado (w\<lparr>view := (view w)\<lparr>selectedTodoId := None\<rparr>\<rparr>))
      | None \<Rightarrow> selectTodo_loop w)"

definition toggleTodoDone :: "world \<Rightarrow> world" where
  "toggleTodoDone w =
     (case truthy (selectedTodoId (view w)) of
        None \<Rightarrow> console_log NenhumTodoSelecionado w
      | Some i \<Rightarrow>
          (let (isDone, file) = db_toggleTodoDone i (store w)
           in console_log (TodoMarcado isDone) (w\<lparr>store := file\<rparr>)))"

definition editTodo :: "world \<Rightarrow> stop + world" where
  "editTodo w =
     (case truthy (selectedTodoId (view w)) of
        None \<Rightarrow> Inr (console_log NenhumTodoSelecionado w)
      | Some i \<Rightarrow>
          (case requestInputLine anyLine w of
             Inl e \<Rightarrow> Inl e
           | Inr (todo, w) \<Rightarrow>
               Inr (console_log TodoEditado (w\<lparr>store := snd (db_editTodo i todo (store w))\<rparr>))))"

definition deleteTodo :: "world \<Rightarrow> world" where
  "deleteTodo w =
     (case truthy (selectedTodoId (view w)) of
        None \<Rightarrow> console_log NenhumTodoSelecionado w
      | Some i \<Rightarrow>
          console_log TodoDeletado
            (w\<lparr>store := snd (db_deleteTodo i (store w)),
               view := (view w)\<lparr>selectedTodoId := None\<rparr>\<rparr>))"

section \<open>The main loop (index.ts)\<close>

text \<open>
  Every handler but \<^verbatim>\<open>L\<close> and \<^verbatim>\<open>Q\<close> runs the controller's method and then \<^verbatim>\<open>listTodos\<close>. \<^verbatim>\<open>Q\<close> ends
  the process. \<open>now\<close> is the clock's reading, which only \<^verbatim>\<open>A\<close> uses.
\<close>

definition thenList :: "stop + world \<Rightarrow> stop + world" where
  "thenList r = (case r of Inl e \<Rightarrow> Inl e | Inr w \<Rightarrow> Inr (listTodos w))"

definition actionHandlers :: "string \<Rightarrow> (string \<Rightarrow> world \<Rightarrow> stop + world) option" where
  "actionHandlers k =
     (if k = ''L'' then Some (\<lambda>now w. Inr (listTodos w))
      else if k = ''A'' then Some (\<lambda>now w. thenList (addTodo now w))
      else if k = ''S'' then Some (\<lambda>now w. thenList (selectTodo w))
      else if k = ''X'' then Some (\<lambda>now w. thenList (Inr (toggleTodoDone w)))
      else if k = ''D'' then Some (\<lambda>now w. thenList (Inr (deleteTodo w)))
      else if k = ''E'' then Some (\<lambda>now w. thenList (editTodo w))
      else if k = ''Q'' then Some (\<lambda>now w. Inl Exited)
      else if k = ''B'' then Some (\<lambda>now w. thenList (searchTodo w))
      else if k = ''R'' then Some (\<lambda>now w. thenList (sortTodos w))
      else if k = ''Z'' then Some (\<lambda>now w. thenList (Inr (toggleHideCompleted w)))
      else if k = ''V'' then Some (\<lambda>now w. thenList (Inr (nextPage w)))
      else if k = ''C'' then Some (\<lambda>now w. thenList (Inr (previousPage w)))
      else if k = ''W'' then Some (\<lambda>now w. thenList (changePageSize w))
      else None)"

definition handleAction :: "string \<Rightarrow> string \<Rightarrow> world \<Rightarrow> stop + world" where
  "handleAction now action w =
     (case actionHandlers (toUpperCase action) of
        None \<Rightarrow> Inr (console_log AcaoInvalida w)
      | Some handler \<Rightarrow> handler now w)"

text \<open>One turn of the loop of \<^verbatim>\<open>main\<close>.\<close>

definition mainIteration :: "string \<Rightarrow> world \<Rightarrow> stop + world" where
  "mainIteration now w =
     (let (availableActions, w) = listActions w
      in case requestInputKey (buildActionsRegex availableActions) w of
           Inl e \<Rightarrow> Inl e
         | Inr (action, w) \<Rightarrow> handleAction now action (console_log (Echo action) w))"

text \<open>
  The loop of \<^verbatim>\<open>main\<close> never ends by itself; \<open>mainLoop n\<close> runs its first \<open>n\<close> turns, the clock
  reading \<open>clock k\<close> when \<open>k\<close> turns remain. \<open>main\<close> starts a session on a file and an input.
\<close>

fun mainLoop :: "nat \<Rightarrow> (nat \<Rightarrow> string) \<Rightarrow> world \<Rightarrow> stop + world" where
  "mainLoop 0 clock w = Inr w"
| "mainLoop (Suc n) clock w =
     (case mainIteration (clock n) w of
        Inl e \<Rightarrow> Inl e
      | Inr w \<Rightarrow> mainLoop n clock w)"

definition main :: "database \<Rightarrow> string list \<Rightarrow> (nat \<Rightarrow> string) \<Rightarrow> nat \<Rightarrow> stop + world" where
  "main file input clock n =
     mainLoop n clock
       (listTodos (greet \<lparr>store = file, view = newController, stdin = input, stdout = []\<rparr>))"

section \<open>Notions of the specification\<close>

text \<open>
  The specification's words, to be compared with what the code computes.
  \<open>occursIn lit s\<close>: \<open>lit\<close> is a substring of \<open>s\<close>, letter case ignored.
\<close>

definition occursIn :: "string \<Rightarrow> string \<Rightarrow> bool" where
  "occursIn lit s = (\<exists>pre suf. map canonicalize s = pre @ map canonicalize lit @ suf)"

text \<open>The terms of a search text when it is split on white space, as the specification has it.\<close>

fun splitWhen :: "(char \<Rightarrow> bool) \<Rightarrow> string \<Rightarrow> string list" where
  "splitWhen p [] = [[]]"
| "splitWhen p (c # cs) =
     (if p c then [] # splitWhen p cs
      else (case splitWhen p cs of
              [] \<Rightarrow> [[c]]
            | w # ws \<Rightarrow> (c # w) # ws))"

definition whitespaceTerms :: "string \<Rightarrow> string list" where
  "whitespaceTerms s = filter (\<lambda>w. w \<noteq> []) (splitWhen isWhiteSpace s)"

text \<open>
  The records that the filter step is to keep: not done when completed todos are hidden,
  and, under a search, containing every term that the code's split at single spaces yields.
\<close>

definition keptByFilter :: "controller \<Rightarrow> todo \<Rightarrow> bool" where
  "keptByFilter c t =
     ((hideCompleted c \<longrightarrow> \<not> todo_done t) \<and>
      (search c \<noteq> [] \<longrightarrow>
         (\<forall>term \<in> set (split (CHR '' '') (search c)). occursIn (trim term) (title t))))"


definition paging :: "world \<Rightarrow> int \<times> int" where
  "paging w = (page (view w), pageSize (view w))"

section \<open>Example data\<close>

definition buyMilk :: todo where
  "buyMilk = \<lparr>todo_id = 1, title = ''Buy milk'',
              timestamp = ''2024-05-01T10:00:00.000Z'', todo_done = False\<rparr>"

definition buyBread :: todo where
  "buyBread = \<lparr>todo_id = 2, title = ''Buy bread'',
               timestamp = ''2024-05-02T09:30:00.000Z'', todo_done = True\<rparr>"

definition milkAndBread :: todo where
  "milkAndBread = \<lparr>todo_id = 3, title = ''Buy milk and bread'',
                   timestamp = ''2024-05-03T08:15:00.000Z'', todo_done = False\<rparr>"

definition tabSearch :: string where
  "tabSearch = ''milk'' @ [CHR 0x09] @ ''bread''"

definition twoTodos :: world where
  "twoTodos = \<lparr>store = [buyMilk, milkAndBread], view = newController,
               stdin = [''5'', ''2''], stdout = []\<rparr>"

text \<open>A clock, and what is kept of a session's result for the statements below.\<close>

definition noon :: "nat \<Rightarrow> string" where
  "noon k = ''2024-06-01T12:00:00.000Z''"

definition outcome :: "stop + world \<Rightarrow> stop + database \<times> controller \<times> string list" where
  "outcome r = (case r of Inl e \<Rightarrow> Inl e | Inr w \<Rightarrow> Inr (store w, view w, stdin w))"



text \<open>
  The store and the view state after the keys \<^verbatim>\<open>z\<close> (hide completed), \<^verbatim>\<open>s\<close> with the index 1
  (select the first todo) and \<^verbatim>\<open>x\<close> (mark it done): the selected todo is hidden.
\<close>

definition staleStore :: database where
  "staleStore = [buyMilk\<lparr>todo_done := True\<rparr>, milkAndBread]"

definition staleView :: controller where
  "staleView = newController\<lparr>hideCompleted := True, selectedTodoId := Some 1\<rparr>"

section \<open>Properties of the store\<close>

lemma find_None_no_match: "find p xs = None \<longleftrightarrow> \<not> list_ex p xs"
  by (induction xs) auto

lemma update_first_split:
  "find p xs = Some x \<Longrightarrow>
     \<exists>pre suf. xs = pre @ x # suf \<and> \<not> list_ex p pre \<and> update_first p f xs = pre @ f x # suf"
proof (induction xs)
  case Nil
  then show ?case by simp
next
  case (Cons y ys)
  show ?case
  proof (cases "p y")
    case True
    with Cons.prems have "y = x" by simp
    with True have "y # ys = [] @ x # ys \<and> \<not> list_ex p [] \<and>
        update_first p f (y # ys) = [] @ f x # ys" by simp
    then show ?thesis by blast
  next
    case False
    with Cons.prems have "find p ys = Some x" by simp
    from Cons.IH [OF this] obtain pre suf where
      h: "ys = pre @ x # suf" "\<not> list_ex p pre" "update_first p f ys = pre @ f x # suf"
      by blast
    with False have "y # ys = (y # pre) @ x # suf \<and> \<not> list_ex p (y # pre) \<and>
        update_first p f (y # ys) = (y # pre) @ f x # suf" by simp
    then show ?thesis by blast
  qed
qed

text \<open>
  C9. When no record of the stored collection has the given id, \<^verbatim>\<open>toggleTodoDone\<close>,
  \<^verbatim>\<open>deleteTodo\<close> and \<^verbatim>\<open>editTodo\<close> each return false and the file keeps exactly its contents.
\<close>

theorem store_ops_missing_id:
  assumes "\<not> list_ex (\<lambda>t. todo_id t = i) file"
  shows "db_toggleTodoDone i file = (False, file)
       \<and> db_deleteTodo i file = (False, file)
       \<and> db_editTodo i text file = (False, file)"
proof -
  from assms have "find (\<lambda>t. todo_id t = i) file = None"
    by (simp add: find_None_no_match)
  then show ?thesis
    by (simp add: db_toggleTodoDone_def db_deleteTodo_def db_editTodo_def db_getTodos_def)
qed

theorem store_ops_missing_id_witness:
  "db_toggleTodoDone 7 [\<lparr>todo_id = 1, title = ''a'', timestamp = ''t'', todo_done = False\<rparr>]
     = (False, [\<lparr>todo_id = 1, title = ''a'', timestamp = ''t'', todo_done = False\<rparr>])
   \<and> db_deleteTodo 7 [\<lparr>todo_id = 1, title = ''a'', timestamp = ''t'', todo_done = False\<rparr>]
     = (False, [\<lparr>todo_id = 1, title = ''a'', timestamp = ''t'', todo_done = False\<rparr>])
   \<and> db_editTodo 7 ''b'' [\<lparr>todo_id = 1, title = ''a'', timestamp = ''t'', todo_done = False\<rparr>]
     = (False, [\<lparr>todo_id = 1, title = ''a'', timestamp = ''t'', todo_done = False\<rparr>])"
  using store_ops_missing_id
    [of 7 "[\<lparr>todo_id = 1, title = ''a'', timestamp = ''t'', todo_done = False\<rparr>]" "''b''"]
  by simp

text \<open>
  C10. When a record with the given id is stored, \<^verbatim>\<open>editTodo\<close> returns true and rewrites the
  file so that the first record with that id has the new title and its other three fields
  as before, while the records before and after it are the same, in the same order.
\<close>

theorem db_editTodo_frame:
  assumes "list_ex (\<lambda>t. todo_id t = i) file"
  shows "\<exists>pre t suf.
           file = pre @ t # suf
         \<and> \<not> list_ex (\<lambda>t. todo_id t = i) pre
         \<and> todo_id t = i
         \<and> db_editTodo i text file =
             (True, pre @ \<lparr>todo_id = todo_id t, title = text,
                           timestamp = timestamp t, todo_done = todo_done t\<rparr> # suf)"
proof -
  from assms obtain t where f: "find (\<lambda>t. todo_id t = i) file = Some t"
    by (cases "find (\<lambda>t. todo_id t = i) file") (auto simp: find_None_no_match)
  from update_first_split [OF f, of "\<lambda>t. t\<lparr>title := text\<rparr>"] obtain pre suf where
    h: "file = pre @ t # suf" "\<not> list_ex (\<lambda>t. todo_id t = i) pre"
       "update_first (\<lambda>t. todo_id t = i) (\<lambda>t. t\<lparr>title := text\<rparr>) file
          = pre @ t\<lparr>title := text\<rparr> # suf"
    by blast
  from f have "todo_id t = i"
    by (auto simp: find_Some_iff)
  moreover have "t\<lparr>title := text\<rparr> = \<lparr>todo_id = todo_id t, title = text,
      timestamp = timestamp t, todo_done = todo_done t\<rparr>"
    by (cases t) simp
  moreover have "db_editTodo i text file =
      (True, update_first (\<lambda>t. todo_id t = i) (\<lambda>t. t\<lparr>title := text\<rparr>) file)"
    using f by (simp add: db_editTodo_def db_getTodos_def)
  ultimately show ?thesis using h by metis
qed

theorem db_editTodo_frame_witness:
  "list_ex (\<lambda>t. todo_id t = 2) [buyMilk, buyBread, milkAndBread]
   \<and> db_editTodo 2 ''Buy rye'' [buyMilk, buyBread, milkAndBread] =
       (True, [buyMilk,
               \<lparr>todo_id = 2, title = ''Buy rye'', timestamp = timestamp buyBread,
                todo_done = todo_done buyBread\<rparr>,
               milkAndBread])"
  using db_editTodo_frame [of 2 "[buyMilk, buyBread, milkAndBread]" "''Buy rye''"]
  by (simp add: db_editTodo_def db_getTodos_def buyMilk_def buyBread_def milkAndBread_def)

text \<open>
  C2. \<^verbatim>\<open>addTodo\<close> numbers the new record with the count of stored records plus one. After
  two additions, the deletion of record 1 and a third addition, the store holds two
  records with the id 2.
\<close>

theorem db_addTodo_duplicate_id:
  "map todo_id
     (run_store_ops
        [Add ''2024-05-01T10:00:00.000Z'' ''a'', Add ''2024-05-01T10:01:00.000Z'' ''b'',
         Delete 1, Add ''2024-05-01T10:02:00.000Z'' ''c''] []) = [2, 2]
   \<and> \<not> distinct (map todo_id
     (run_store_ops
        [Add ''2024-05-01T10:00:00.000Z'' ''a'', Add ''2024-05-01T10:01:00.000Z'' ''b'',
         Delete 1, Add ''2024-05-01T10:02:00.000Z'' ''c''] []))"
  by (simp add: db_addTodo_def db_deleteTodo_def db_getTodos_def)

section \<open>Pagination\<close>










section \<open>The search filter\<close>

lemma matchesAt_prefix:
  "matchesAt lit s \<longleftrightarrow> (\<exists>suf. map canonicalize s = map canonicalize lit @ suf)"
  by (induction lit s rule: matchesAt.induct) auto

lemma searchFrom_occursIn: "searchFrom lit s \<longleftrightarrow> occursIn lit s"
proof (induction s)
  case Nil
  show ?case by (cases lit) (auto simp: occursIn_def)
next
  case (Cons d ds)
  have "occursIn lit (d # ds) \<longleftrightarrow> matchesAt lit (d # ds) \<or> occursIn lit ds"
  proof
    assume "occursIn lit (d # ds)"
    then obtain pre suf where h: "map canonicalize (d # ds) = pre @ map canonicalize lit @ suf"
      unfolding occursIn_def by blast
    show "matchesAt lit (d # ds) \<or> occursIn lit ds"
    proof (cases pre)
      case Nil
      with h show ?thesis by (auto simp: matchesAt_prefix)
    next
      case (Cons p ps)
      with h have "map canonicalize ds = ps @ map canonicalize lit @ suf" by simp
      then show ?thesis unfolding occursIn_def by blast
    qed
  next
    assume "matchesAt lit (d # ds) \<or> occursIn lit ds"
    then show "occursIn lit (d # ds)"
    proof
      assume "matchesAt lit (d # ds)"
      then obtain suf where "map canonicalize (d # ds) = [] @ map canonicalize lit @ suf"
        by (auto simp: matchesAt_prefix)
      then show ?thesis unfolding occursIn_def by blast
    next
      assume "occursIn lit ds"
      then obtain pre suf where "map canonicalize ds = pre @ map canonicalize lit @ suf"
        unfolding occursIn_def by blast
      then have "map canonicalize (d # ds) = (canonicalize d # pre) @ map canonicalize lit @ suf"
        by simp
      then show ?thesis unfolding occursIn_def by blast
    qed
  qed
  with Cons show ?case by simp
qed

text \<open>Every character that \<^verbatim>\<open>_escapeRegex\<close> escapes may be escaped, and it escapes all that must be.\<close>

lemma escaped_not_word:
  "c \<in> set [CHR ''-'', CHR ''['', CHR '']'', CHR ''{'', CHR ''}'', CHR ''('',
            CHR '')'', CHR ''*'', CHR ''+'', CHR ''?'', CHR ''.'', CHR '','',
            backslash, CHR ''^'', CHR ''$'', CHR ''|'', CHR ''#'']
     \<or> isWhiteSpace c \<Longrightarrow> \<not> isWordChar c"
  by (auto simp: isWordChar_def isWhiteSpace_def backslash_def)

lemma plain_not_syntax:
  "\<not> (c \<in> set [CHR ''-'', CHR ''['', CHR '']'', CHR ''{'', CHR ''}'', CHR ''('',
               CHR '')'', CHR ''*'', CHR ''+'', CHR ''?'', CHR ''.'', CHR '','',
               backslash, CHR ''^'', CHR ''$'', CHR ''|'', CHR ''#'']
        \<or> isWhiteSpace c) \<Longrightarrow> c \<noteq> backslash \<and> \<not> isSyntaxChar c"
  by (auto simp: isSyntaxChar_def)

lemma parsePattern_escapeRegex: "parsePattern (escapeRegex s) = Some s"
proof (induction s)
  case Nil
  show ?case by (simp add: escapeRegex_def)
next
  case (Cons c cs)
  have ih: "parsePattern (escapeRegex cs) = Some cs" by (rule Cons.IH)
  show ?case
  proof (cases "c \<in> set [CHR ''-'', CHR ''['', CHR '']'', CHR ''{'', CHR ''}'', CHR ''('',
                         CHR '')'', CHR ''*'', CHR ''+'', CHR ''?'', CHR ''.'', CHR '','',
                         backslash, CHR ''^'', CHR ''$'', CHR ''|'', CHR ''#'']
                  \<or> isWhiteSpace c")
    case True
    then have e: "escapeRegex (c # cs) = backslash # c # escapeRegex cs"
      by (simp add: escapeRegex_def)
    from True have "\<not> isWordChar c" by (rule escaped_not_word)
    with ih show ?thesis unfolding e by simp
  next
    case False
    then have e: "escapeRegex (c # cs) = c # escapeRegex cs"
      by (simp add: escapeRegex_def)
    from False have "c \<noteq> backslash \<and> \<not> isSyntaxChar c" by (rule plain_not_syntax)
    with ih show ?thesis unfolding e by simp
  qed
qed

lemma test_escaped: "RegExp_test_gi (escapeRegex s) t \<longleftrightarrow> occursIn s t"
  by (simp add: RegExp_test_gi_def parsePattern_escapeRegex searchFrom_occursIn)

lemma mset_insertBy: "mset (insertBy cmp x ys) = add_mset x (mset ys)"
  by (induction ys) auto

lemma mset_sort_js: "mset (sort_js cmp xs) = mset xs"
  by (induction xs) (auto simp: sort_js_def mset_insertBy)

lemma filtered_mset:
  "mset (getFilteredTodos file c) = filter_mset (keptByFilter c) (mset file)"
proof -
  define hidden where
    "hidden = (if hideCompleted c then filter (\<lambda>t. \<not> todo_done t) file else file)"
  define found where
    "found = (if search c \<noteq> [] then
       filter (\<lambda>t. list_all (\<lambda>term. RegExp_test_gi (escapeRegex (trim term)) (title t))
                 (split (CHR '' '') (search c))) hidden
     else hidden)"
  have "mset (getFilteredTodos file c) = mset found"
    by (auto simp: getFilteredTodos_def db_getTodos_def Let_def mset_sort_js found_def hidden_def
        filter_filter_mset intro!: filter_mset_cong)
  also have "mset found = filter_mset (\<lambda>t. search c \<noteq> [] \<longrightarrow>
      (\<forall>term \<in> set (split (CHR '' '') (search c)). occursIn (trim term) (title t))) (mset hidden)"
    by (simp add: found_def test_escaped list_all_iff)
  also have "mset hidden = filter_mset (\<lambda>t. hideCompleted c \<longrightarrow> \<not> todo_done t) (mset file)"
    by (simp add: hidden_def)
  finally show ?thesis
    by (auto simp: keptByFilter_def filter_filter_mset intro!: filter_mset_cong)
qed

text \<open>
  C4, as the code has it. The filter keeps exactly the records (with their multiplicity)
  that are not hidden as completed and, when the search text is not empty, whose title
  contains every term as a literal substring, letter case ignored, where the terms are the
  pieces of the search text between single space characters, each trimmed. An empty search
  text filters nothing, and with no hiding and the default order the dataset comes back as
  it is.
\<close>

theorem search_filter_conjunctive:
  "mset (getFilteredTodos file c) = filter_mset (keptByFilter c) (mset file)
   \<and> (search c = [] \<and> \<not> hideCompleted c \<longrightarrow> mset (getFilteredTodos file c) = mset file)
   \<and> (search c = [] \<and> \<not> hideCompleted c \<and> sortBy c = Timestamp \<and> order c = Asc \<longrightarrow>
        getFilteredTodos file c = file)"
proof -
  have "search c = [] \<and> \<not> hideCompleted c \<longrightarrow> mset (getFilteredTodos file c) = mset file"
  proof
    assume "search c = [] \<and> \<not> hideCompleted c"
    then have "keptByFilter c = (\<lambda>t. True)"
      by (simp add: keptByFilter_def fun_eq_iff)
    then show "mset (getFilteredTodos file c) = mset file"
      by (simp add: filtered_mset)
  qed
  moreover have "search c = [] \<and> \<not> hideCompleted c \<and> sortBy c = Timestamp \<and> order c = Asc \<longrightarrow>
      getFilteredTodos file c = file"
    by (simp add: getFilteredTodos_def db_getTodos_def)
  ultimately show ?thesis using filtered_mset by blast
qed

theorem search_filter_conjunctive_witness:
  "search (newController\<lparr>search := ''milk bread''\<rparr>) \<noteq> []
   \<and> keptByFilter (newController\<lparr>search := ''milk bread''\<rparr>) milkAndBread
   \<and> \<not> keptByFilter (newController\<lparr>search := ''milk bread''\<rparr>) buyMilk
   \<and> getFilteredTodos [milkAndBread, buyMilk] (newController\<lparr>search := ''milk bread''\<rparr>)
       = [milkAndBread]"
proof -
  have out: "getFilteredTodos [milkAndBread, buyMilk] (newController\<lparr>search := ''milk bread''\<rparr>)
      = [milkAndBread]"
    by (simp add: getFilteredTodos_def db_getTodos_def newController_def milkAndBread_def
        buyMilk_def RegExp_test_gi_def escapeRegex_def trim_def isWhiteSpace_def
        isSyntaxChar_def backslash_def isLower_def)
  have ne: "milkAndBread \<noteq> buyMilk"
    by (simp add: milkAndBread_def buyMilk_def)
  from search_filter_conjunctive
    [of "[milkAndBread, buyMilk]" "newController\<lparr>search := ''milk bread''\<rparr>"]
  have "{#milkAndBread#} =
      filter_mset (keptByFilter (newController\<lparr>search := ''milk bread''\<rparr>))
        {#milkAndBread, buyMilk#}"
    by (simp add: out)
  with ne have "keptByFilter (newController\<lparr>search := ''milk bread''\<rparr>) milkAndBread
      \<and> \<not> keptByFilter (newController\<lparr>search := ''milk bread''\<rparr>) buyMilk"
    by (auto split: if_splits)
  with out show ?thesis by (simp add: newController_def)
qed

text \<open>
  The specification's split on white space fails on a tab: the white-space-separated terms of
  \<^verbatim>\<open>milk<TAB>bread\<close> are \<^verbatim>\<open>milk\<close> and \<^verbatim>\<open>bread\<close>, both occur in the title \<^verbatim>\<open>Buy milk and bread\<close>,
  and the filter drops the record, since the code splits at spaces only and looks for the
  one term \<^verbatim>\<open>milk<TAB>bread\<close>.
\<close>

theorem search_tab_counterexample:
  "tabSearch \<noteq> []
   \<and> whitespaceTerms tabSearch = [''milk'', ''bread'']
   \<and> occursIn ''milk'' (title milkAndBread)
   \<and> occursIn ''bread'' (title milkAndBread)
   \<and> getFilteredTodos [milkAndBread] (newController\<lparr>search := tabSearch\<rparr>) = []"
proof -
  have "whitespaceTerms tabSearch = [''milk'', ''bread'']"
    by (simp add: whitespaceTerms_def tabSearch_def isWhiteSpace_def)
  moreover have "occursIn ''milk'' (title milkAndBread)"
    unfolding searchFrom_occursIn [symmetric]
    by (simp add: milkAndBread_def isLower_def)
  moreover have "occursIn ''bread'' (title milkAndBread)"
    unfolding searchFrom_occursIn [symmetric]
    by (simp add: milkAndBread_def isLower_def)
  moreover have "getFilteredTodos [milkAndBread] (newController\<lparr>search := tabSearch\<rparr>) = []"
    by (simp add: getFilteredTodos_def db_getTodos_def newController_def milkAndBread_def
        tabSearch_def RegExp_test_gi_def escapeRegex_def trim_def isWhiteSpace_def
        isSyntaxChar_def isWordChar_def backslash_def isLower_def)
  ultimately show ?thesis by (simp add: tabSearch_def)
qed

section \<open>Sorting by status\<close>

lemma localeCompare_lex: "localeCompare a b \<le> 0 \<longleftrightarrow> lexordp_eq a b"
proof (induction a b rule: localeCompare.induct)
  case 1
  show ?case by (simp add: lexordp_eq.Nil)
next
  case (2 d ds)
  show ?case by (simp add: lexordp_eq.Nil)
next
  case (3 c cs)
  show ?case by simp
next
  case (4 c cs d ds)
  have lt: "c < d \<longleftrightarrow> (of_char c :: nat) < of_char d"
    by (simp add: less_char_def)
  show ?case
  proof (cases "(of_char c :: nat) < of_char d")
    case True
    then show ?thesis using lt by simp
  next
    case False
    note nlt = this
    show ?thesis
    proof (cases "(of_char d :: nat) < of_char c")
      case True
      then have "d < c" by (simp add: less_char_def)
      with True nlt lt show ?thesis by simp
    next
      case False
      with nlt have "c = d" by (metis lt less_char_def linorder_neqE)
      with False nlt "4.IH" show ?thesis by simp
    qed
  qed
qed

lemma localeCompare_total: "localeCompare a b \<le> 0 \<or> localeCompare b a \<le> 0"
  by (simp add: localeCompare_lex lexordp_eq_linear)

lemma localeCompare_trans:
  "localeCompare a b \<le> 0 \<Longrightarrow> localeCompare b c \<le> 0 \<Longrightarrow> localeCompare a c \<le> 0"
  by (simp add: localeCompare_lex) (rule lexordp_eq_trans)

lemma compareStatus_le:
  "compareStatus a b \<le> 0 \<longleftrightarrow>
     (if todo_done a = todo_done b then localeCompare (timestamp a) (timestamp b) \<le> 0
      else \<not> todo_done a)"
  by (simp add: compareStatus_def)

text \<open>The comparator is a total preorder, so the stable sort's result is determined.\<close>

lemma compareStatus_total: "compareStatus a b \<le> 0 \<or> compareStatus b a \<le> 0"
  using localeCompare_total [of "timestamp a" "timestamp b"]
  by (auto simp: compareStatus_le)

lemma compareStatus_trans:
  "compareStatus a b \<le> 0 \<Longrightarrow> compareStatus b c \<le> 0 \<Longrightarrow> compareStatus a c \<le> 0"
  using localeCompare_trans [of "timestamp a" "timestamp b" "timestamp c"]
  by (auto simp: compareStatus_le split: if_splits)

lemma set_insertBy: "set (insertBy cmp x ys) = insert x (set ys)"
  by (induction ys) auto

lemma sorted_insertBy:
  assumes total: "\<And>a b. cmp a b \<le> 0 \<or> cmp b a \<le> 0"
    and trans: "\<And>a b c. cmp a b \<le> 0 \<Longrightarrow> cmp b c \<le> 0 \<Longrightarrow> cmp a c \<le> 0"
    and "sorted_wrt (\<lambda>a b. cmp a b \<le> 0) ys"
  shows "sorted_wrt (\<lambda>a b. cmp a b \<le> 0) (insertBy cmp x ys)"
  using assms(3)
proof (induction ys)
  case Nil
  show ?case by simp
next
  case (Cons y ys)
  show ?case
  proof (cases "cmp x y \<le> 0")
    case True
    with Cons.prems trans show ?thesis by auto
  next
    case False
    with total have "cmp y x \<le> 0" by blast
    with False Cons show ?thesis by (auto simp: set_insertBy)
  qed
qed

lemma sorted_sort_js:
  assumes "\<And>a b. cmp a b \<le> 0 \<or> cmp b a \<le> 0"
    and "\<And>a b c. cmp a b \<le> 0 \<Longrightarrow> cmp b c \<le> 0 \<Longrightarrow> cmp a c \<le> 0"
  shows "sorted_wrt (\<lambda>a b. cmp a b \<le> 0) (sort_js cmp xs)"
proof (induction xs)
  case Nil
  show ?case by (simp add: sort_js_def)
next
  case (Cons x xs)
  have "sort_js cmp (x # xs) = insertBy cmp x (sort_js cmp xs)"
    by (simp add: sort_js_def)
  with Cons assms show ?case by (simp add: sorted_insertBy)
qed

lemma status_sorted:
  assumes "sortBy c = Status" "order c = Asc"
  shows "sorted_wrt (\<lambda>a b. compareStatus a b \<le> 0) (getFilteredTodos file c)"
proof -
  have "\<exists>xs. getFilteredTodos file c = sort_js compareStatus xs"
    using assms by (auto simp: getFilteredTodos_def Let_def)
  then show ?thesis
    using sorted_sort_js [of compareStatus, OF compareStatus_total compareStatus_trans]
    by auto
qed

text \<open>
  C5. With the sort key \<^verbatim>\<open>status\<close> and ascending order (no reversal), take two positions
  \<open>i < j\<close> of the output: a done record at \<open>i\<close> has a done record at \<open>j\<close>, so every record
  that is not done precedes every done one; and when both have the same status, the
  timestamp at \<open>i\<close> is lexicographically at most the timestamp at \<open>j\<close>.
\<close>

theorem status_sort_order:
  assumes "sortBy c = Status" "order c = Asc" "i < j" "j < length (getFilteredTodos file c)"
  shows "(todo_done (getFilteredTodos file c ! i) \<longrightarrow> todo_done (getFilteredTodos file c ! j))
       \<and> (todo_done (getFilteredTodos file c ! i) = todo_done (getFilteredTodos file c ! j) \<longrightarrow>
            lexordp_eq (timestamp (getFilteredTodos file c ! i))
                       (timestamp (getFilteredTodos file c ! j)))"
proof -
  from status_sorted [OF assms(1,2)] assms(3,4)
  have "compareStatus (getFilteredTodos file c ! i) (getFilteredTodos file c ! j) \<le> 0"
    by (simp add: sorted_wrt_iff_nth_less)
  then show ?thesis
    by (auto simp: compareStatus_le localeCompare_lex split: if_splits)
qed

theorem status_sort_order_witness:
  "sortBy (newController\<lparr>sortBy := Status\<rparr>) = Status
   \<and> order (newController\<lparr>sortBy := Status\<rparr>) = Asc
   \<and> getFilteredTodos [buyBread, milkAndBread, buyMilk] (newController\<lparr>sortBy := Status\<rparr>)
       = [buyMilk, milkAndBread, buyBread]
   \<and> lexordp_eq (timestamp buyMilk) (timestamp milkAndBread)"
proof -
  have out: "getFilteredTodos [buyBread, milkAndBread, buyMilk] (newController\<lparr>sortBy := Status\<rparr>)
      = [buyMilk, milkAndBread, buyBread]"
    by (simp add: getFilteredTodos_def db_getTodos_def newController_def sort_js_def
        compareStatus_def buyBread_def milkAndBread_def buyMilk_def)
  have st: "todo_done buyMilk = todo_done milkAndBread"
    by (simp add: buyMilk_def milkAndBread_def)
  have key: "sortBy (newController\<lparr>sortBy := Status\<rparr>) = Status"
    and asc: "order (newController\<lparr>sortBy := Status\<rparr>) = Asc"
    by (simp_all add: newController_def)
  have len: "1 < length (getFilteredTodos [buyBread, milkAndBread, buyMilk]
      (newController\<lparr>sortBy := Status\<rparr>))"
    by (simp add: out)
  from status_sort_order [OF key asc zero_less_one len]
  have "lexordp_eq (timestamp buyMilk) (timestamp milkAndBread)"
    by (simp add: out st)
  with out show ?thesis by (simp add: newController_def)
qed

section \<open>The derivation reads and never writes\<close>

lemma derived_getTodos: "derived m0 (fst (mem_getTodos m0)) (snd (mem_getTodos m0)) (disk m0)"
  by (simp add: derived_def mem_getTodos_def)

lemma derived_filter:
  assumes "derived m0 r m xs"
  shows "derived m0 (fst (mem_filter p r m)) (snd (mem_filter p r m)) (filter p xs)"
  using assms by (auto simp: derived_def mem_filter_def)

lemma derived_sort:
  assumes "derived m0 r m xs"
  shows "derived m0 (fst (mem_sort cmp r m)) (snd (mem_sort cmp r m)) (sort_js cmp xs)"
  using assms by (auto simp: derived_def mem_sort_def)

lemma derived_reverse:
  assumes "derived m0 r m xs"
  shows "derived m0 (fst (mem_reverse r m)) (snd (mem_reverse r m)) (rev xs)"
  using assms by (auto simp: derived_def mem_reverse_def)

lemma derived_slice:
  assumes "derived m0 r m xs"
  shows "derived m0 (fst (mem_slice r s e m)) (snd (mem_slice r s e m)) (slice xs s e)"
  using assms by (auto simp: derived_def mem_slice_def)

lemma derived_self: "derived m0 r m xs \<Longrightarrow> self m = self m0"
  by (simp add: derived_def)

lemma self_simps:
  "self (snd (mem_getTodos m)) = self m"
  "self (snd (mem_filter p r m)) = self m"
  "self (snd (mem_sort cmp r m)) = self m"
  "self (snd (mem_reverse r m)) = self m"
  "self (snd (mem_slice r s e m)) = self m"
  by (simp_all add: mem_getTodos_def mem_filter_def mem_sort_def mem_reverse_def mem_slice_def)

lemma derived_getFilteredTodos:
  "derived m0 (fst (mem_getFilteredTodos m0)) (snd (mem_getFilteredTodos m0))
     (getFilteredTodos (disk m0) (self m0))"
proof -
  define c where "c = self m0"
  define s1 where "s1 = mem_getTodos m0"
  define x1 where "x1 = disk m0"
  have d1: "derived m0 (fst s1) (snd s1) x1"
    unfolding s1_def x1_def by (rule derived_getTodos)
  define s2 where "s2 = (if hideCompleted c then mem_filter (\<lambda>t. \<not> todo_done t) (fst s1) (snd s1) else s1)"
  define x2 where "x2 = (if hideCompleted c then filter (\<lambda>t. \<not> todo_done t) x1 else x1)"
  have d2: "derived m0 (fst s2) (snd s2) x2"
    unfolding s2_def x2_def using d1 by (simp add: derived_filter)
  define p where "p = (\<lambda>t::todo. list_all (\<lambda>term. RegExp_test_gi (escapeRegex (trim term)) (title t))
                             (split (CHR '' '') (search c)))"
  define s3 where "s3 = (if search c \<noteq> [] then mem_filter p (fst s2) (snd s2) else s2)"
  define x3 where "x3 = (if search c \<noteq> [] then filter p x2 else x2)"
  have d3: "derived m0 (fst s3) (snd s3) x3"
    unfolding s3_def x3_def using d2 by (simp add: derived_filter)
  define cmp where "cmp = (\<lambda>(a::todo) (b::todo). if sortBy c = Status then compareStatus a b
                               else localeCompare (title a) (title b))"
  define s4 where "s4 = (if sortBy c \<noteq> Timestamp then mem_sort cmp (fst s3) (snd s3) else s3)"
  define x4 where "x4 = (if sortBy c \<noteq> Timestamp then sort_js cmp x3 else x3)"
  have d4: "derived m0 (fst s4) (snd s4) x4"
    unfolding s4_def x4_def using d3 by (simp add: derived_sort)
  define s5 where "s5 = (if order c = Desc then mem_reverse (fst s4) (snd s4) else s4)"
  define x5 where "x5 = (if order c = Desc then rev x4 else x4)"
  have d5: "derived m0 (fst s5) (snd s5) x5"
    unfolding s5_def x5_def using d4 by (simp add: derived_reverse)
  have "mem_getFilteredTodos m0 = s5"
    by (simp add: mem_getFilteredTodos_def Let_def case_prod_beta s5_def s4_def s3_def s2_def
        s1_def c_def p_def cmp_def self_simps)
  moreover have "getFilteredTodos (disk m0) (self m0) = x5"
    by (simp add: getFilteredTodos_def db_getTodos_def Let_def x5_def x4_def x3_def x2_def x1_def
        cmp_def p_def c_def)
  ultimately show ?thesis using d5 by simp
qed


lemma derived_getVisibleTodos:
  "derived m0 (fst (mem_getVisibleTodos m0)) (snd (mem_getVisibleTodos m0))
     (getVisibleTodos (disk m0) (self m0))"
proof -
  define s where "s = mem_getFilteredTodos m0"
  have d: "derived m0 (fst s) (snd s) (getFilteredTodos (disk m0) (self m0))"
    unfolding s_def by (rule derived_getFilteredTodos)
  then have c: "self (snd s) = self m0" by (rule derived_self)
  have "mem_getVisibleTodos m0 =
      mem_slice (fst s) ((page (self m0) - 1) * pageSize (self m0))
        (page (self m0) * pageSize (self m0)) (snd s)"
    by (simp add: mem_getVisibleTodos_def case_prod_beta s_def [symmetric] c)
  with derived_slice [OF d] show ?thesis
    by (simp add: getVisibleTodos_def)
qed

text \<open>
  C8. The derivation is run twice on an arbitrary memory, the second time on the memory the
  first run leaves. The first run yields the visible sequence that the function
  \<open>getVisibleTodos\<close> of the file and the view state gives; the second run yields the same
  sequence and leaves the array of the first run as it was; the file and the controller's
  fields are the same after each run; and every array that existed before is unchanged,
  so the in-place \<^verbatim>\<open>sort\<close> and \<^verbatim>\<open>reverse\<close> only ever touch arrays that the run itself created.
\<close>

theorem derive_pure:
  "(let (r1, m1) = mem_getVisibleTodos m;
        (r2, m2) = mem_getVisibleTodos m1
    in heap m1 ! r1 = getVisibleTodos (disk m) (self m)
     \<and> heap m2 ! r2 = heap m1 ! r1
     \<and> heap m2 ! r1 = heap m1 ! r1
     \<and> disk m1 = disk m \<and> self m1 = self m
     \<and> disk m2 = disk m \<and> self m2 = self m
     \<and> take (length (heap m)) (heap m1) = heap m
     \<and> take (length (heap m)) (heap m2) = heap m)"
proof -
  define r1 where "r1 = fst (mem_getVisibleTodos m)"
  define m1 where "m1 = snd (mem_getVisibleTodos m)"
  define r2 where "r2 = fst (mem_getVisibleTodos m1)"
  define m2 where "m2 = snd (mem_getVisibleTodos m1)"
  have d1: "derived m r1 m1 (getVisibleTodos (disk m) (self m))"
    unfolding r1_def m1_def by (rule derived_getVisibleTodos)
  have d2: "derived m1 r2 m2 (getVisibleTodos (disk m1) (self m1))"
    unfolding r2_def m2_def by (rule derived_getVisibleTodos)
  from d1 have same: "disk m1 = disk m" "self m1 = self m"
    and old1: "take (length (heap m)) (heap m1) = heap m"
    and r1: "r1 < length (heap m1)" "heap m1 ! r1 = getVisibleTodos (disk m) (self m)"
    by (simp_all add: derived_def)
  from d2 have same2: "disk m2 = disk m1" "self m2 = self m1"
    and old2: "take (length (heap m1)) (heap m2) = heap m1"
    and r2: "heap m2 ! r2 = getVisibleTodos (disk m1) (self m1)"
    by (simp_all add: derived_def)
  from old2 r1(1) have keep: "heap m2 ! r1 = heap m1 ! r1"
    by (metis nth_take)
  from d1 have "length (heap m) \<le> length (heap m1)" by (simp add: derived_def)
  with old1 old2 have old: "take (length (heap m)) (heap m2) = heap m"
    by (metis min.absorb1 take_take)
  show ?thesis
    using r1 r2 same same2 keep old1 old
    by (simp add: case_prod_beta r1_def [symmetric] m1_def [symmetric] r2_def [symmetric]
        m2_def [symmetric])
qed

text \<open>A run in descending order: the reversal happens in the array parsed from the file.\<close>

lemma derive_pure_example:
  "mem_getVisibleTodos \<lparr>disk = [buyMilk, buyBread], self = newController\<lparr>order := Desc\<rparr>, heap = []\<rparr>
   = (1, \<lparr>disk = [buyMilk, buyBread], self = newController\<lparr>order := Desc\<rparr>,
          heap = [[buyBread, buyMilk], [buyBread, buyMilk]]\<rparr>)"
  by (simp add: mem_getVisibleTodos_def mem_getFilteredTodos_def mem_getTodos_def mem_reverse_def
      mem_slice_def slice_def newController_def)

section \<open>Selecting a todo by its index\<close>

lemma requestInputLine_accepts:
  assumes "stdin w = d # ds" "acceptedLine (readLine d)"
  shows "requestInputLine acceptedLine w =
           Inr (readLine d, w\<lparr>stdin := ds, stdout := stdout w @ [Prompt]\<rparr>)"
proof -
  have "stdin (console_log Prompt w) = d # ds"
    using assms(1) by (simp add: console_log_def)
  from requestInput_loop_Cons [OF this, of readLine acceptedLine True] assms(2)
  show ?thesis
    by (simp add: requestInputLine_def requestInput_def console_log_def)
qed

lemma item_Some_iff:
  "item xs i = Some x \<longleftrightarrow> 0 \<le> i \<and> i < int (length xs) \<and> x = xs ! nat i"
  by (auto simp: item_def)

lemma item_None_iff: "item xs i = None \<longleftrightarrow> \<not> (0 \<le> i \<and> i < int (length xs))"
  by (simp add: item_def)

lemma requestInput_loop_frame:
  "requestInput_loop readFunc acceptedInput feedback w = Inr (input, w') \<Longrightarrow>
     store w' = store w \<and> view w' = view w \<and> acceptedInput input"
proof (induction "length (stdin w)" arbitrary: w)
  case 0
  then show ?case by (simp add: requestInput_loop_Nil)
next
  case (Suc n)
  then obtain d ds where ds: "stdin w = d # ds" "length ds = n"
    by (cases "stdin w") auto
  define w2 where "w2 = (if feedback
      then console_log Prompt (console_log EntradaInvalida (w\<lparr>stdin := ds\<rparr>))
      else w\<lparr>stdin := ds\<rparr>)"
  have same: "length (stdin w2) = n" "store w2 = store w" "view w2 = view w"
    by (simp_all add: w2_def console_log_def ds)
  show ?case
  proof (cases "acceptedInput (readFunc d)")
    case True
    with Suc.prems ds show ?thesis
      by (auto simp: requestInput_loop_Cons)
  next
    case False
    with Suc.prems ds
    have "requestInput_loop readFunc acceptedInput feedback w2 = Inr (input, w')"
      by (simp add: requestInput_loop_Cons w2_def)
    with Suc.hyps(1) [of w2] same show ?thesis by simp
  qed
qed

lemma requestInputLine_frame:
  "requestInputLine acceptedLine w = Inr (input, w') \<Longrightarrow>
     store w' = store w \<and> view w' = view w \<and> acceptedLine input"
  unfolding requestInputLine_def requestInput_def
  by (drule requestInput_loop_frame) (simp add: console_log_def)


lemma selectTodo_loop_frame:
  "selectTodo_loop w = Inr w' \<Longrightarrow>
     store w' = store w \<and>
     (\<exists>t \<in> set (getVisibleTodos (store w) (view w)).
        view w' = (view w)\<lparr>selectedTodoId := Some (todo_id t)\<rparr>)"
proof (induction w rule: selectTodo_loop.induct)
  case (1 w)
  from "1.prems" obtain index w1 where
    r: "requestInputLine numberLine w = Inr (index, w1)"
    by (subst (asm) selectTodo_loop.simps) (auto split: sum.splits)
  from requestInputLine_frame [OF r] have same: "store w1 = store w" "view w1 = view w"
    by simp_all
  show ?case
  proof (cases "item (getVisibleTodos (store w1) (view w1)) (Number index - 1)")
    case None
    with "1.prems" r have "selectTodo_loop (console_log TodoNaoEncontrado w1) = Inr w'"
      by (subst (asm) selectTodo_loop.simps) simp
    from "1.IH" [OF r refl refl None this] same show ?thesis
      by (simp add: console_log_def)
  next
    case (Some t)
    with "1.prems" r have w': "w' = console_log (TodoSelecionado t)
        (w1\<lparr>view := (view w1)\<lparr>selectedTodoId := Some (todo_id t)\<rparr>\<rparr>)"
      by (subst (asm) selectTodo_loop.simps) simp
    from Some have "t \<in> set (getVisibleTodos (store w1) (view w1))"
      by (auto simp: item_Some_iff)
    with w' same show ?thesis
      by (auto simp: console_log_def)
  qed
qed

text \<open>
  C7. \<^verbatim>\<open>selectTodo\<close> with no todo selected reads a line of digits. When the number is no
  position of the visible page (counted from 1), the command writes \<^verbatim>\<open>TODO nao encontrado!\<close>
  and goes round its loop again, prompting anew, in a state that differs from the one before
  only by the consumed line and the two writes: the store and every field of the view
  state, \<^verbatim>\<open>_selectedTodoId\<close> included, are the same. When the number is a position of the
  visible page, the command ends with \<^verbatim>\<open>_selectedTodoId\<close> set to the id of the todo at that
  position and nothing else changed in the store and the view state. However the command
  ends, the store is the same, and the view state differs only in \<^verbatim>\<open>_selectedTodoId\<close>,
  which holds the id of a todo of the visible page.
\<close>

theorem selectTodo_index:
  assumes "truthy (selectedTodoId (view w)) = None"
    and "stdin w = d # ds"
    and "numberLine (readLine d)"
  shows "(\<not> (1 \<le> Number (readLine d)
            \<and> Number (readLine d) \<le> int (length (getVisibleTodos (store w) (view w)))) \<longrightarrow>
          selectTodo w =
            selectTodo_loop (w\<lparr>stdin := ds, stdout := stdout w @ [Prompt, TodoNaoEncontrado]\<rparr>))
       \<and> (1 \<le> Number (readLine d)
            \<and> Number (readLine d) \<le> int (length (getVisibleTodos (store w) (view w))) \<longrightarrow>
          selectTodo w =
            Inr (w\<lparr>stdin := ds,
                   stdout := stdout w @
                     [Prompt,
                      TodoSelecionado
                        (getVisibleTodos (store w) (view w) ! nat (Number (readLine d) - 1))],
                   view := (view w)\<lparr>selectedTodoId :=
                     Some (todo_id
                        (getVisibleTodos (store w) (view w) ! nat (Number (readLine d) - 1)))\<rparr>\<rparr>))
       \<and> (\<forall>w'. selectTodo w = Inr w' \<longrightarrow>
            store w' = store w \<and>
            (\<exists>t \<in> set (getVisibleTodos (store w) (view w)).
               view w' = (view w)\<lparr>selectedTodoId := Some (todo_id t)\<rparr>))"
proof -
  define w1 where "w1 = w\<lparr>stdin := ds, stdout := stdout w @ [Prompt]\<rparr>"
  have r: "requestInputLine numberLine w = Inr (readLine d, w1)"
    unfolding w1_def using assms(2,3) by (rule requestInputLine_accepts)
  have loop: "selectTodo w = selectTodo_loop w"
    using assms(1) by (simp add: selectTodo_def)
  have step: "selectTodo_loop w =
      (case item (getVisibleTodos (store w) (view w)) (Number (readLine d) - 1) of
         None \<Rightarrow> selectTodo_loop (console_log TodoNaoEncontrado w1)
       | Some todo \<Rightarrow>
           Inr (console_log (TodoSelecionado todo)
                  (w1\<lparr>view := (view w1)\<lparr>selectedTodoId := Some (todo_id todo)\<rparr>\<rparr>)))"
    by (subst selectTodo_loop.simps) (simp add: r w1_def split: option.splits)
  have bad: "\<not> (1 \<le> Number (readLine d)
        \<and> Number (readLine d) \<le> int (length (getVisibleTodos (store w) (view w)))) \<longrightarrow>
      selectTodo w =
        selectTodo_loop (w\<lparr>stdin := ds, stdout := stdout w @ [Prompt, TodoNaoEncontrado]\<rparr>)"
  proof
    assume "\<not> (1 \<le> Number (readLine d)
        \<and> Number (readLine d) \<le> int (length (getVisibleTodos (store w) (view w))))"
    then have "item (getVisibleTodos (store w) (view w)) (Number (readLine d) - 1) = None"
      by (simp add: item_None_iff) linarith
    with loop step show "selectTodo w =
        selectTodo_loop (w\<lparr>stdin := ds, stdout := stdout w @ [Prompt, TodoNaoEncontrado]\<rparr>)"
      by (simp add: w1_def console_log_def)
  qed
  have good: "1 \<le> Number (readLine d)
        \<and> Number (readLine d) \<le> int (length (getVisibleTodos (store w) (view w))) \<longrightarrow>
      selectTodo w =
        Inr (w\<lparr>stdin := ds,
               stdout := stdout w @
                 [Prompt,
                  TodoSelecionado
                    (getVisibleTodos (store w) (view w) ! nat (Number (readLine d) - 1))],
               view := (view w)\<lparr>selectedTodoId :=
                 Some (todo_id
                    (getVisibleTodos (store w) (view w) ! nat (Number (readLine d) - 1)))\<rparr>\<rparr>)"
  proof
    assume "1 \<le> Number (readLine d)
        \<and> Number (readLine d) \<le> int (length (getVisibleTodos (store w) (view w)))"
    then have "item (getVisibleTodos (store w) (view w)) (Number (readLine d) - 1) =
        Some (getVisibleTodos (store w) (view w) ! nat (Number (readLine d) - 1))"
      by (simp add: item_def)
    with loop step show "selectTodo w =
        Inr (w\<lparr>stdin := ds,
               stdout := stdout w @
                 [Prompt,
                  TodoSelecionado
                    (getVisibleTodos (store w) (view w) ! nat (Number (readLine d) - 1))],
               view := (view w)\<lparr>selectedTodoId :=
                 Some (todo_id
                    (getVisibleTodos (store w) (view w) ! nat (Number (readLine d) - 1)))\<rparr>\<rparr>)"
      by (simp add: w1_def console_log_def)
  qed
  have frame: "\<forall>w'. selectTodo w = Inr w' \<longrightarrow>
      store w' = store w \<and>
      (\<exists>t \<in> set (getVisibleTodos (store w) (view w)).
         view w' = (view w)\<lparr>selectedTodoId := Some (todo_id t)\<rparr>)"
  proof (intro allI impI)
    fix w'
    assume "selectTodo w = Inr w'"
    with loop have "selectTodo_loop w = Inr w'" by simp
    then show "store w' = store w \<and>
        (\<exists>t \<in> set (getVisibleTodos (store w) (view w)).
           view w' = (view w)\<lparr>selectedTodoId := Some (todo_id t)\<rparr>)"
      by (rule selectTodo_loop_frame)
  qed
  show ?thesis by (rule conjI [OF bad conjI [OF good frame]])
qed

theorem selectTodo_index_witness:
  "truthy (selectedTodoId (view twoTodos)) = None
   \<and> stdin twoTodos = [''5'', ''2'']
   \<and> numberLine (readLine ''5'')
   \<and> selectTodo twoTodos =
       Inr \<lparr>store = [buyMilk, milkAndBread],
            view = newController\<lparr>selectedTodoId := Some 3\<rparr>,
            stdin = [],
            stdout = [Prompt, TodoNaoEncontrado, Prompt, TodoSelecionado milkAndBread]\<rparr>"
proof -
  have a: "truthy (selectedTodoId (view twoTodos)) = None"
    by code_simp
  have b: "stdin twoTodos = [''5'', ''2'']"
    by (simp add: twoTodos_def)
  have c: "numberLine (readLine ''5'')"
    by code_simp
  have range: "\<not> (1 \<le> Number (readLine ''5'')
      \<and> Number (readLine ''5'') \<le> int (length (getVisibleTodos (store twoTodos) (view twoTodos))))"
    by code_simp
  from selectTodo_index [OF a b c] range
  have "selectTodo twoTodos =
      selectTodo_loop (twoTodos\<lparr>stdin := [''2''],
        stdout := stdout twoTodos @ [Prompt, TodoNaoEncontrado]\<rparr>)"
    by simp
  also have "\<dots> = Inr \<lparr>store = [buyMilk, milkAndBread],
            view = newController\<lparr>selectedTodoId := Some 3\<rparr>,
            stdin = [],
            stdout = [Prompt, TodoNaoEncontrado, Prompt, TodoSelecionado milkAndBread]\<rparr>"
    by code_simp
  finally show ?thesis using a b c by simp
qed

section \<open>The page stays at 1 or above\<close>

lemma paging_console_log [simp]: "paging (console_log msg w) = paging w"
  by (simp add: paging_def console_log_def)

lemma paging_listTodos [simp]: "paging (listTodos w) = paging w"
  by (simp add: listTodos_def)
































section \<open>A selection that no longer resolves\<close>

text \<open>What the menu and the rendering take as the selected todo.\<close>

lemma getSelectedTodo_resolves:
  "getSelectedTodo file c \<noteq> None \<longleftrightarrow>
     isSet (selectedTodoId c)
     \<and> list_ex (\<lambda>t. Some (todo_id t) = selectedTodoId c) (getVisibleTodos file c)"
proof -
  have "(\<exists>y. find p xs = Some y) \<longleftrightarrow> list_ex p xs" for p :: "todo \<Rightarrow> bool" and xs
    using find_None_no_match [of p xs] by (cases "find p xs") auto
  then show ?thesis by (simp add: getSelectedTodo_def)
qed

text \<open>
  C3. A session on two open todos: hide completed, select the first todo, mark it done.
  The selected id is still set and its record is hidden, so it resolves to no todo, and the
  menu is the one of no selection, with \<^verbatim>\<open>S - Selecionar TODO\<close>. The command \<^verbatim>\<open>S\<close> then clears the
  id and reads nothing, where with no id set it prompts for an index and selects; and
  \<^verbatim>\<open>toggleTodoDone\<close> flips the hidden record, where with no id set it reports that nothing is
  selected. The commands test the id alone, not whether it resolves.
\<close>

theorem stale_selection:
  "outcome (main [buyMilk, milkAndBread] [''z'', ''s'', ''1'', ''x''] noon 3) =
     Inr (staleStore, staleView, [])
   \<and> getVisibleTodos staleStore staleView = [milkAndBread]
   \<and> getSelectedTodo staleStore staleView = None
   \<and> fst (listActions \<lparr>store = staleStore, view = staleView, stdin = [''1''], stdout = []\<rparr>)
       = ''QLARZWBS''
   \<and> selectTodo \<lparr>store = staleStore, view = staleView, stdin = [''1''], stdout = []\<rparr> =
       Inr \<lparr>store = staleStore, view = staleView\<lparr>selectedTodoId := None\<rparr>,
            stdin = [''1''], stdout = [TodoDesselecionado]\<rparr>
   \<and> selectTodo \<lparr>store = staleStore, view = staleView\<lparr>selectedTodoId := None\<rparr>,
                  stdin = [''1''], stdout = []\<rparr> =
       Inr \<lparr>store = staleStore, view = staleView\<lparr>selectedTodoId := Some 3\<rparr>,
            stdin = [], stdout = [Prompt, TodoSelecionado milkAndBread]\<rparr>
   \<and> toggleTodoDone \<lparr>store = staleStore, view = staleView, stdin = [], stdout = []\<rparr> =
       \<lparr>store = [buyMilk, milkAndBread], view = staleView, stdin = [],
        stdout = [TodoMarcado False]\<rparr>
   \<and> toggleTodoDone \<lparr>store = staleStore, view = staleView\<lparr>selectedTodoId := None\<rparr>,
                      stdin = [], stdout = []\<rparr> =
       \<lparr>store = staleStore, view = staleView\<lparr>selectedTodoId := None\<rparr>, stdin = [],
        stdout = [NenhumTodoSelecionado]\<rparr>"
  by code_simp


end
